theory Spec2Isabelle
  imports Main
begin

section \<open>Values, errors and the key/value store\<close>

text \<open>
  JavaScript values as the wrapped functions see them (\<open>SerializableObject\<close>). An instance
  of a domain-object class carries its base class (\<open>instanceof\<close>), its constructor name and
  its own properties. \<open>JRef\<close> is the lightweight pointer that cache normalization leaves in
  a query's cache entry in place of a domain object. Numbers are integers here (no NaN).
\<close>

datatype dobj_kind = DomainEntity | DomainValueObject | DomainEvent

datatype jsval =
    JUndefined
  | JNull
  | JBool bool
  | JNum int
  | JStr string
  | JArr "jsval list"
  | JObj "(string \<times> jsval) list"
  | JDobj dobj_kind string "(string \<times> jsval) list"
  | JRef string

datatype error =
    UnexpectedCodePathError string
  | DependencyRelationshipViaUnintuitivePropertyNameError string
  | UndefinableDomainEntityPropertyDependencyInvalidationError string
  | TypeError
  | LogicError string

text \<open>Every call on the underlying cache and on the wrapped logic is recorded, in order.\<close>

datatype event = EvGet string | EvSet string jsval | EvLogic "jsval list"

record 'w sys =
  store :: "string \<Rightarrow> jsval"
  trace :: "event list"
  world :: 'w

text \<open>
  A cache object: \<open>get\<close> and \<open>set\<close>. The expiration option of \<open>set\<close> is not modelled
  (the store keeps what it is given).
\<close>

record 'w cache =
  cache_get :: "string \<Rightarrow> 'w sys \<Rightarrow> jsval \<times> 'w sys"
  cache_set :: "string \<Rightarrow> jsval \<Rightarrow> 'w sys \<Rightarrow> 'w sys"

text \<open>
  The in-memory store of the tests: \<open>get\<close> is \<open>exampleStore[key]\<close> (\<open>undefined\<close> when
  the key was never set), \<open>set\<close> is \<open>exampleStore[key] = value\<close>.
\<close>

definition store_get :: "string \<Rightarrow> 'w sys \<Rightarrow> jsval \<times> 'w sys" where
  "store_get key s = (store s key, s\<lparr>trace := trace s @ [EvGet key]\<rparr>)"

definition store_set :: "string \<Rightarrow> jsval \<Rightarrow> 'w sys \<Rightarrow> 'w sys" where
  "store_set key v s = s\<lparr>store := (store s)(key := v), trace := trace s @ [EvSet key v]\<rparr>"

definition storeCache :: "'w cache" where
  "storeCache = \<lparr>cache_get = store_get, cache_set = store_set\<rparr>"

text \<open>JavaScript truthiness (\<open>!!v\<close>).\<close>

fun truthy :: "jsval \<Rightarrow> bool" where
  "truthy JUndefined = False"
| "truthy JNull = False"
| "truthy (JBool b) = b"
| "truthy (JNum n) = (n \<noteq> 0)"
| "truthy (JStr s) = (s \<noteq> [])"
| "truthy (JArr xs) = True"
| "truthy (JObj kvs) = True"
| "truthy (JDobj k n kvs) = True"
| "truthy (JRef r) = True"

text \<open>Property read \<open>v[key]\<close> and \<open>key in v\<close> on objects and class instances.\<close>

fun js_prop :: "jsval \<Rightarrow> string \<Rightarrow> jsval" where
  "js_prop (JObj kvs) key = (case map_of kvs key of Some v \<Rightarrow> v | None \<Rightarrow> JUndefined)"
| "js_prop (JDobj k n kvs) key = (case map_of kvs key of Some v \<Rightarrow> v | None \<Rightarrow> JUndefined)"
| "js_prop v key = JUndefined"

fun js_in :: "string \<Rightarrow> jsval \<Rightarrow> bool" where
  "js_in key (JObj kvs) = (map_of kvs key \<noteq> None)"
| "js_in key (JDobj k n kvs) = (map_of kvs key \<noteq> None)"
| "js_in key v = False"

fun isArray :: "jsval \<Rightarrow> bool" where
  "isArray (JArr xs) = True"
| "isArray v = False"

fun elems :: "jsval \<Rightarrow> jsval list" where
  "elems (JArr xs) = xs"
| "elems v = []"

text \<open>
  \<open>Promise.all(xs.map(f))\<close>: every task is started and runs to its end, in list order
  (the order in which an in-order store settles them); the aggregate is the first
  rejection, or the list of results.
\<close>

fun promise_all ::
  "('a \<Rightarrow> 's \<Rightarrow> (error + 'b) \<times> 's) \<Rightarrow> 'a list \<Rightarrow> 's \<Rightarrow> (error + 'b list) \<times> 's" where
  "promise_all f [] s = (Inr [], s)"
| "promise_all f (x # xs) s =
     (case f x s of (r, s1) \<Rightarrow>
       (case promise_all f xs s1 of (rs, s2) \<Rightarrow>
         ((case r of Inl e \<Rightarrow> Inl e
           | Inr v \<Rightarrow> (case rs of Inl e \<Rightarrow> Inl e | Inr vs \<Rightarrow> Inr (v # vs))), s2)))"

section \<open>Collaborators outside the repository\<close>

text \<open>
  Functions of the libraries the code imports (\<open>domain-objects\<close>, \<open>cross-sha256\<close>,
  \<open>with-cache-normalization\<close>) and of the language runtime are parameters of the model.
  \<open>getUpdatableProperties\<close> and \<open>omitMetadataValues\<close> stand for the \<open>Object.keys\<close> of what
  the library functions return.
\<close>

record collab =
  jsString :: "jsval \<Rightarrow> string"
  jsonStringify :: "jsval \<Rightarrow> string"
  sha256hex :: "string \<Rightarrow> string"
  getUniqueIdentifierSlug :: "jsval \<Rightarrow> string"
  serialize :: "jsval \<Rightarrow> string"
  getUpdatableProperties :: "jsval \<Rightarrow> string list"
  omitMetadataValues :: "jsval \<Rightarrow> string list"
  isPropertyNameAReferenceIntuitively :: "string \<Rightarrow> string \<Rightarrow> bool"
  getCacheReferenceKeyForDomainObject :: "jsval \<Rightarrow> string"

text \<open>A value used where the code expects a string: a string is itself, anything else is
  coerced by the runtime.\<close>

fun asString :: "collab \<Rightarrow> jsval \<Rightarrow> string" where
  "asString c (JStr s) = s"
| "asString c v = jsString c v"

section \<open>Pointer registry\<close>

text \<open>\<open>isValidPointerState\<close>: truthy, an object, with a \<open>queries\<close> key holding an array.\<close>

fun isValidPointerState :: "jsval \<Rightarrow> bool" where
  "isValidPointerState (JObj kvs) = (js_in ''queries'' (JObj kvs) \<and> isArray (js_prop (JObj kvs) ''queries''))"
| "isValidPointerState (JDobj k n kvs) =
     (js_in ''queries'' (JDobj k n kvs) \<and> isArray (js_prop (JDobj k n kvs) ''queries''))"
| "isValidPointerState v = False"

definition queriesOf :: "jsval \<Rightarrow> jsval list" where
  "queriesOf st = elems (js_prop st ''queries'')"

definition pointerState :: "string list \<Rightarrow> jsval" where
  "pointerState qs = JObj [(''queries'', JArr (map JStr qs))]"

text \<open>
  \<open>addQueryKeyToDependencyPointer\<close>. The per-pointer bottleneck runs one call at a time;
  sequential calls are what the state passing expresses.
\<close>

definition addQueryKeyToDependencyPointer ::
  "'w cache \<Rightarrow> string \<Rightarrow> string \<Rightarrow> 'w sys \<Rightarrow> (error + unit) \<times> 'w sys" where
  "addQueryKeyToDependencyPointer cache pointer queryKey s =
     (case cache_get cache pointer s of (stateBefore, s1) \<Rightarrow>
        if \<not> isValidPointerState stateBefore then
          (if truthy stateBefore
           then (Inl (UnexpectedCodePathError
                   ''detected corrupt $query.ref dependency.pointer state. stale cache data may exist''), s1)
           else (Inr (), cache_set cache pointer (JObj [(''queries'', JArr [JStr queryKey])]) s1))
        else if JStr queryKey \<in> set (queriesOf stateBefore) then (Inr (), s1)
        else (Inr (), cache_set cache pointer
                (JObj [(''queries'', JArr (queriesOf stateBefore @ [JStr queryKey]))]) s1))"

text \<open>\<open>invalidateQueriesByDependencyPointer\<close>.\<close>

definition invalidateQueriesByDependencyPointer ::
  "collab \<Rightarrow> 'w cache \<Rightarrow> string \<Rightarrow> 'w sys \<Rightarrow> (error + string list) \<times> 'w sys" where
  "invalidateQueriesByDependencyPointer c cache pointer s =
     (case cache_get cache pointer s of (pState, s1) \<Rightarrow>
        if \<not> truthy pState then (Inr [], s1)
        else if \<not> isValidPointerState pState then
          (Inl (UnexpectedCodePathError
             ''detected corrupt $query.ref dependency.pointer state. stale cache data may exist''), s1)
        else
          (case promise_all (\<lambda>queryKey s'. (Inr (), cache_set cache (asString c queryKey) JUndefined s'))
                  (queriesOf pState) s1 of
             (r, s2) \<Rightarrow>
               (case r of Inl e \<Rightarrow> (Inl e, s2)
                | Inr us \<Rightarrow> (Inr (map (asString c) (queriesOf pState)), s2))))"


section \<open>Pointer key deriver\<close>

text \<open>The regular-expression replacements of \<open>serializePropertyValue\<close>, on ASCII.\<close>

definition isWordChar :: "char \<Rightarrow> bool" where
  "isWordChar ch = (let n = (of_char ch :: nat) in
      (48 \<le> n \<and> n \<le> 57) \<or> (65 \<le> n \<and> n \<le> 90) \<or> (97 \<le> n \<and> n \<le> 122) \<or> n = 95)"

definition replaceColons :: "string \<Rightarrow> string" where
  "replaceColons str = map (\<lambda>ch. if ch = CHR '':'' then CHR ''.'' else ch) str"

definition stripUnsafe :: "string \<Rightarrow> string" where
  "stripUnsafe str = filter (\<lambda>ch. isWordChar ch \<or> ch = CHR ''-'' \<or> ch = CHR ''_'') str"

fun replaceDotDot :: "string \<Rightarrow> string" where
  "replaceDotDot (a # b # rest) =
     (if a = CHR ''.'' \<and> b = CHR ''.'' then CHR ''.'' # replaceDotDot rest
      else a # replaceDotDot (b # rest))"
| "replaceDotDot rest = rest"

definition humanPart :: "string \<Rightarrow> string" where
  "humanPart json = replaceDotDot (stripUnsafe (replaceColons json))"

text \<open>
  \<open>serializePropertyValue\<close>. \<open>JSON.stringify(undefined)\<close> is \<open>undefined\<close>, on which
  \<open>.replace\<close> raises a TypeError.
\<close>

fun isDomainIdentifiable :: "jsval \<Rightarrow> bool" where
  "isDomainIdentifiable (JDobj k n kvs) = (k = DomainEntity \<or> k = DomainValueObject)"
| "isDomainIdentifiable v = False"

definition serializePropertyValue :: "collab \<Rightarrow> jsval \<Rightarrow> error + string" where
  "serializePropertyValue c v =
     (if isDomainIdentifiable v then Inr (getUniqueIdentifierSlug c v)
      else if v = JUndefined then Inl TypeError
      else Inr (humanPart (jsonStringify c v) @ ''.'' @ sha256hex c (jsonStringify c v)))"

datatype specifier = PropertyOf string | PropertyEquals jsval

definition defineDependencyPointerKey :: "collab \<Rightarrow> string \<Rightarrow> string \<Rightarrow> specifier \<Rightarrow> error + string" where
  "defineDependencyPointerKey c dobj property spec =
     (case spec of
        PropertyOf uuid \<Rightarrow> Inr (''.query.dep.'' @ dobj @ ''.uuid.'' @ uuid @ ''.'' @ property)
      | PropertyEquals v \<Rightarrow>
          (case serializePropertyValue c v of
             Inl e \<Rightarrow> Inl e
           | Inr sv \<Rightarrow> Inr (''.query.dep.'' @ dobj @ ''.'' @ property @ ''.'' @ sv)))"

section \<open>Dependency resolver\<close>

text \<open>\<open>Array.map\<close> with a callback that may throw: the first throw ends the map.\<close>

fun mapE :: "('a \<Rightarrow> error + 'b) \<Rightarrow> 'a list \<Rightarrow> error + 'b list" where
  "mapE f [] = Inr []"
| "mapE f (x # xs) =
     (case f x of Inl e \<Rightarrow> Inl e
      | Inr y \<Rightarrow> (case mapE f xs of Inl e \<Rightarrow> Inl e | Inr ys \<Rightarrow> Inr (y # ys)))"

type_synonym execution = "jsval list \<times> jsval"

datatype uuids = OneUuid string | ManyUuids "string list"

fun uuidList :: "uuids \<Rightarrow> string list" where
  "uuidList (OneUuid u) = [u]"
| "uuidList (ManyUuids us) = us"

text \<open>A dependency declaration; \<open>Unsupported\<close> is an object with neither key.\<close>

datatype dependency =
    Identity string "execution \<Rightarrow> uuids"
  | Relationship (from_dobj: string) (from_uuid: "execution \<Rightarrow> uuids") (to_dobj: string)
                 (via_dobj: string) (via_prop: string)
  | Unsupported

datatype dependsOn =
    DependsOnArray "dependency list"
  | DependsOnFunction "execution \<Rightarrow> dependency list"

fun pointersOfDependency :: "collab \<Rightarrow> execution \<Rightarrow> dependency \<Rightarrow> error + string list" where
  "pointersOfDependency c ex (Identity dobj uuidOf) =
     mapE (\<lambda>uuid. defineDependencyPointerKey c dobj ''uuid'' (PropertyEquals (JStr uuid)))
          (uuidList (uuidOf ex))"
| "pointersOfDependency c ex (Relationship fromDobj fromUuid toDobj viaDobj viaProp) =
     (let uuids = uuidList (fromUuid ex);
          viaSourceDobj = (viaDobj = fromDobj);
          referencedDobj = (if viaSourceDobj then toDobj else fromDobj)
      in if \<not> isPropertyNameAReferenceIntuitively c viaProp referencedDobj
         then Inl (DependencyRelationshipViaUnintuitivePropertyNameError referencedDobj)
         else mapE (\<lambda>uuid. defineDependencyPointerKey c viaDobj viaProp
                      (if viaSourceDobj then PropertyOf uuid else PropertyEquals (JStr uuid)))
                   uuids)"
| "pointersOfDependency c ex Unsupported =
     Inl (UnexpectedCodePathError ''unsupported dependency specified'')"

definition getDependencyPointersDependedOnByQuery ::
  "collab \<Rightarrow> dependsOn \<Rightarrow> execution \<Rightarrow> error + string list" where
  "getDependencyPointersDependedOnByQuery c dependsOnArrayOrFunction ex =
     (let deps = (case dependsOnArrayOrFunction of
                    DependsOnFunction f \<Rightarrow> f ex
                  | DependsOnArray ds \<Rightarrow> ds)
      in case mapE (pointersOfDependency c ex) deps of
           Inl e \<Rightarrow> Inl e
         | Inr pss \<Rightarrow> Inr (concat pss))"

section \<open>Mutation impact scanner\<close>

text \<open>\<open>[...new Set(xs)]\<close>: the first occurrence of each element, in order.\<close>

definition dedupe :: "'a list \<Rightarrow> 'a list" where
  "dedupe xs = rev (remdups (rev xs))"

fun isDomainEntity :: "jsval \<Rightarrow> bool" where
  "isDomainEntity (JDobj k n kvs) = (k = DomainEntity)"
| "isDomainEntity v = False"

fun constructorName :: "jsval \<Rightarrow> string" where
  "constructorName (JDobj k n kvs) = n"
| "constructorName v = ''Object''"

fun arrayOf :: "jsval \<Rightarrow> jsval list" where
  "arrayOf (JArr xs) = xs"
| "arrayOf v = [v]"

definition pointersOfProperty ::
  "collab \<Rightarrow> jsval \<Rightarrow> jsval \<Rightarrow> string \<Rightarrow> error + string list" where
  "pointersOfProperty c dobjCached dobjReferenced propertyKey =
     (if \<not> js_in ''uuid'' dobjReferenced
      then Inl (UndefinableDomainEntityPropertyDependencyInvalidationError (constructorName dobjReferenced))
      else
        (case defineDependencyPointerKey c (constructorName dobjReferenced) propertyKey
                (PropertyOf (asString c (js_prop dobjReferenced ''uuid''))) of
           Inl e \<Rightarrow> Inl e
         | Inr fromIdentityPointer \<Rightarrow>
            (let propertyValueOld = js_prop dobjCached propertyKey;
                 propertyValueOldArray = (if truthy propertyValueOld then arrayOf propertyValueOld else []);
                 propertyValueNew = js_prop dobjReferenced propertyKey;
                 propertyValueNewArray = arrayOf propertyValueNew;
                 propertyValueMergedArray = propertyValueOldArray @ propertyValueNewArray
             in case mapE (\<lambda>thisValue. defineDependencyPointerKey c (constructorName dobjReferenced)
                              propertyKey (PropertyEquals thisValue))
                          propertyValueMergedArray of
                  Inl e \<Rightarrow> Inl e
                | Inr toValuePointers \<Rightarrow> Inr (fromIdentityPointer # toValuePointers))))"

definition propertiesImpacted :: "collab \<Rightarrow> jsval \<Rightarrow> jsval \<Rightarrow> string list" where
  "propertiesImpacted c dobjCached dobjReferenced =
     (if \<not> truthy dobjCached then omitMetadataValues c dobjReferenced
      else filter (\<lambda>key. serialize c (js_prop dobjCached key) \<noteq> serialize c (js_prop dobjReferenced key))
                  (getUpdatableProperties c dobjReferenced))"

definition getDependencyPointersInvalidatedByMutationOutputReference ::
  "collab \<Rightarrow> 'w cache \<Rightarrow> string \<Rightarrow> jsval \<Rightarrow> 'w sys \<Rightarrow> (error + string list) \<times> 'w sys" where
  "getDependencyPointersInvalidatedByMutationOutputReference c cache referenceKey dobjReferenced s =
     (if \<not> isDomainEntity dobjReferenced then (Inr [], s)
      else
        (case cache_get cache referenceKey s of (dobjCached, s1) \<Rightarrow>
           (case mapE (pointersOfProperty c dobjCached dobjReferenced)
                      (propertiesImpacted c dobjCached dobjReferenced) of
              Inl e \<Rightarrow> (Inl e, s1)
            | Inr pss \<Rightarrow> (Inr (dedupe (concat pss)), s1))))"

section \<open>Normalization collaborator\<close>

text \<open>
  Modelled from the spec: the normalization collaborator (\<open>with-cache-normalization\<close>) is
  not part of the repository. \<open>extractReferences\<close> walks arbitrary nesting and yields one
  \<open>{referenceKey, entitySnapshot}\<close> per reference key; the normalized shape replaces each
  domain-object occurrence by a lightweight pointer; denormalization substitutes the
  stored snapshots back. The reference key of an object is the collaborator function
  \<open>getCacheReferenceKeyForDomainObject\<close>.
\<close>

fun normalizeValue :: "collab \<Rightarrow> jsval \<Rightarrow> jsval" where
  "normalizeValue c (JDobj k n kvs) = JRef (getCacheReferenceKeyForDomainObject c (JDobj k n kvs))"
| "normalizeValue c (JArr xs) = JArr (map (normalizeValue c) xs)"
| "normalizeValue c (JObj kvs) = JObj (map (map_prod id (normalizeValue c)) kvs)"
| "normalizeValue c v = v"

fun occurrences :: "collab \<Rightarrow> jsval \<Rightarrow> (string \<times> jsval) list" where
  "occurrences c (JDobj k n kvs) = [(getCacheReferenceKeyForDomainObject c (JDobj k n kvs), JDobj k n kvs)]"
| "occurrences c (JArr xs) = concat (map (occurrences c) xs)"
| "occurrences c (JObj kvs) = concat (map (\<lambda>kv. occurrences c (snd kv)) kvs)"
| "occurrences c v = []"

text \<open>\<open>obj[key] = value\<close> on an object kept as its entries in insertion order.\<close>

fun assign :: "string \<Rightarrow> jsval \<Rightarrow> (string \<times> jsval) list \<Rightarrow> (string \<times> jsval) list" where
  "assign key v [] = [(key, v)]"
| "assign key v ((k, w) # kvs) = (if k = key then (k, v) # kvs else (k, w) # assign key v kvs)"

definition extractReferences :: "collab \<Rightarrow> jsval \<Rightarrow> (string \<times> jsval) list" where
  "extractReferences c v = fold (\<lambda>kv acc. assign (fst kv) (snd kv) acc) (occurrences c v) []"

definition normalizeDomainObjectReferences :: "collab \<Rightarrow> jsval \<Rightarrow> jsval \<times> (string \<times> jsval) list" where
  "normalizeDomainObjectReferences c v = (normalizeValue c v, extractReferences c v)"

fun referencedKeys :: "jsval \<Rightarrow> string list" where
  "referencedKeys (JRef key) = [key]"
| "referencedKeys (JArr xs) = concat (map referencedKeys xs)"
| "referencedKeys (JObj kvs) = concat (map (\<lambda>kv. referencedKeys (snd kv)) kvs)"
| "referencedKeys v = []"

fun substituteReferences :: "(string \<Rightarrow> jsval) \<Rightarrow> jsval \<Rightarrow> jsval" where
  "substituteReferences resolver (JRef key) = resolver key"
| "substituteReferences resolver (JArr xs) = JArr (map (substituteReferences resolver) xs)"
| "substituteReferences resolver (JObj kvs) = JObj (map (map_prod id (substituteReferences resolver)) kvs)"
| "substituteReferences resolver v = v"

text \<open>Reading the keys one after the other, each read recorded.\<close>

fun getAll :: "'w cache \<Rightarrow> string list \<Rightarrow> 'w sys \<Rightarrow> (string \<times> jsval) list \<times> 'w sys" where
  "getAll cache [] s = ([], s)"
| "getAll cache (key # keys) s =
     (case cache_get cache key s of (v, s1) \<Rightarrow>
        (case getAll cache keys s1 of (kvs, s2) \<Rightarrow> ((key, v) # kvs, s2)))"

fun setAll :: "'w cache \<Rightarrow> (string \<times> jsval) list \<Rightarrow> 'w sys \<Rightarrow> 'w sys" where
  "setAll cache [] s = s"
| "setAll cache (kv # kvs) s = setAll cache kvs (cache_set cache (fst kv) (snd kv) s)"

text \<open>
  Modelled from the spec: \<open>withNormalization\<close> writes every contained snapshot under its
  own reference key and then the normalized shape under the given key; on read it
  substitutes the snapshots stored under the referenced keys.
\<close>

definition withNormalization :: "collab \<Rightarrow> 'w cache \<Rightarrow> 'w cache" where
  "withNormalization c cache =
     \<lparr>cache_get = (\<lambda>key s.
         (case cache_get cache key s of (v, s1) \<Rightarrow>
            (case getAll cache (dedupe (referencedKeys v)) s1 of (kvs, s2) \<Rightarrow>
               (substituteReferences (\<lambda>k. case map_of kvs k of Some w \<Rightarrow> w | None \<Rightarrow> JUndefined) v, s2)))),
      cache_set = (\<lambda>key v s.
         (case normalizeDomainObjectReferences c v of (normalized, references) \<Rightarrow>
            cache_set cache key normalized (setAll cache references s)))\<rparr>"

text \<open>
  \<open>withSerialization\<close> stores the serialized text of a value and parses it on read; the
  store of this model holds the values themselves.
\<close>

definition withSerialization :: "'w cache \<Rightarrow> 'w cache" where
  "withSerialization cache = cache"

definition getDependencyPointersInvalidatedByMutation ::
  "collab \<Rightarrow> 'w cache \<Rightarrow> jsval \<Rightarrow> 'w sys \<Rightarrow> (error + string list) \<times> 'w sys" where
  "getDependencyPointersInvalidatedByMutation c cache output s =
     (case normalizeDomainObjectReferences c output of (normalized, references) \<Rightarrow>
        (case promise_all (\<lambda>reference.
                  getDependencyPointersInvalidatedByMutationOutputReference c cache (fst reference) (snd reference))
                references s of
           (r, s1) \<Rightarrow>
             (case r of Inl e \<Rightarrow> (Inl e, s1)
              | Inr pss \<Rightarrow> (Inr (dedupe (concat pss)), s1))))"

section \<open>Query and mutation orchestrators\<close>

text \<open>The wrapped logic reads and writes the world outside the cache.\<close>

type_synonym 'w logic = "jsval list \<Rightarrow> 'w \<Rightarrow> (error + jsval) \<times> 'w"

definition runLogic :: "'w logic \<Rightarrow> jsval list \<Rightarrow> 'w sys \<Rightarrow> (error + jsval) \<times> 'w sys" where
  "runLogic logic input s =
     (case logic input (world s) of
        (r, w) \<Rightarrow> (r, s\<lparr>trace := trace s @ [EvLogic input], world := w\<rparr>))"

text \<open>The options of \<open>withQueryCaching\<close>; the expiration and the debug log are not modelled.\<close>

record 'w queryOptions =
  qcache :: "'w cache"
  qdependsOn :: dependsOn
  qserializeKey :: "(jsval list \<Rightarrow> string) option"
  qvalid :: "(execution \<Rightarrow> bool) option"

definition queryKeyOf :: "collab \<Rightarrow> 'w queryOptions \<Rightarrow> jsval list \<Rightarrow> string" where
  "queryKeyOf c options input =
     (case qserializeKey options of Some f \<Rightarrow> f input | None \<Rightarrow> jsonStringify c (JArr input))"

definition queryCache :: "collab \<Rightarrow> 'w queryOptions \<Rightarrow> 'w cache" where
  "queryCache c options = withNormalization c (withSerialization (qcache options))"

definition withQueryCaching ::
  "collab \<Rightarrow> 'w logic \<Rightarrow> 'w queryOptions \<Rightarrow> jsval list \<Rightarrow> 'w sys \<Rightarrow> (error + jsval) \<times> 'w sys" where
  "withQueryCaching c logic options input s =
     (let cache = queryCache c options;
          key = queryKeyOf c options input
      in case cache_get cache key s of (found, s1) \<Rightarrow>
        if truthy found then (Inr found, s1)
        else
          (case runLogic logic input s1 of (r, s2) \<Rightarrow>
            (case r of Inl e \<Rightarrow> (Inl e, s2)
             | Inr output \<Rightarrow>
               (let isValidCacheEntry =
                      (case qvalid options of None \<Rightarrow> True | Some valid \<Rightarrow> valid (input, output))
                in if \<not> isValidCacheEntry then (Inr output, s2)
                   else
                     (case getDependencyPointersDependedOnByQuery c (qdependsOn options) (input, output) of
                        Inl e \<Rightarrow> (Inl e, s2)
                      | Inr pointers \<Rightarrow>
                         (case promise_all (\<lambda>pointer. addQueryKeyToDependencyPointer cache pointer key)
                                 pointers s2 of
                            (rr, s3) \<Rightarrow>
                              (case rr of Inl e \<Rightarrow> (Inl e, s3)
                               | Inr us \<Rightarrow>
                                  (case cache_get cache key (cache_set cache key output s3) of
                                     (foundNow, s5) \<Rightarrow> (Inr foundNow, s5)))))))))"

definition withMutationEffects ::
  "collab \<Rightarrow> 'w logic \<Rightarrow> 'w cache \<Rightarrow> jsval list \<Rightarrow> 'w sys \<Rightarrow> (error + jsval) \<times> 'w sys" where
  "withMutationEffects c logic optionsCache input s =
     (let cache = withSerialization optionsCache
      in case runLogic logic input s of (r, s1) \<Rightarrow>
        (case r of Inl e \<Rightarrow> (Inl e, s1)
         | Inr output \<Rightarrow>
            (case getDependencyPointersInvalidatedByMutation c cache output s1 of (rp, s2) \<Rightarrow>
              (case rp of Inl e \<Rightarrow> (Inl e, s2)
               | Inr pointers \<Rightarrow>
                  (case promise_all (invalidateQueriesByDependencyPointer c cache) pointers s2 of
                     (rq, s3) \<Rightarrow>
                       (case rq of Inl e \<Rightarrow> (Inl e, s3)
                        | Inr queriesInvalidated \<Rightarrow>
                           (case normalizeDomainObjectReferences c output of
                              (normalized, references) \<Rightarrow>
                                (Inr output, setAll cache references s3))))))))"


section \<open>A concrete instance of the collaborators\<close>

text \<open>
  Stand-ins for the library functions, used to run the model on concrete inputs: a
  compact JSON printer, a digest that writes every character as two hexadecimal digits
  (injective, in place of SHA-256), and a class table for the entity classes of the
  repository's tests and README (\<open>Job\<close>, \<open>Ship\<close>, \<open>Container\<close>).
\<close>

definition hexDigit :: "nat \<Rightarrow> char" where
  "hexDigit n = (''0123456789abcdef'' ! (n mod 16))"

definition demoDigest :: "string \<Rightarrow> string" where
  "demoDigest str = concat (map (\<lambda>ch. [hexDigit ((of_char ch :: nat) div 16), hexDigit (of_char ch :: nat)]) str)"

function showNat :: "nat \<Rightarrow> string" where
  "showNat n = (if n < 10 then [hexDigit n] else showNat (n div 10) @ [hexDigit (n mod 10)])"
  by pat_completeness auto
termination
  by (relation "measure id") auto

declare showNat.simps [simp del]

definition showInt :: "int \<Rightarrow> string" where
  "showInt i = (if i < 0 then ''-'' @ showNat (nat (- i)) else showNat (nat i))"

fun joinWith :: "string \<Rightarrow> string list \<Rightarrow> string" where
  "joinWith sep [] = []"
| "joinWith sep [x] = x"
| "joinWith sep (x # y # ys) = x @ sep @ joinWith sep (y # ys)"

definition quoted :: "string \<Rightarrow> string" where
  "quoted str = [CHR 0x22] @ str @ [CHR 0x22]"

fun demoStringify :: "jsval \<Rightarrow> string" where
  "demoStringify JUndefined = ''undefined''"
| "demoStringify JNull = ''null''"
| "demoStringify (JBool b) = (if b then ''true'' else ''false'')"
| "demoStringify (JNum i) = showInt i"
| "demoStringify (JStr str) = quoted str"
| "demoStringify (JArr xs) = ''['' @ joinWith '','' (map demoStringify xs) @ '']''"
| "demoStringify (JObj kvs) =
     ''{'' @ joinWith '','' (map (\<lambda>kv. quoted (fst kv) @ '':'' @ demoStringify (snd kv)) kvs) @ ''}''"
| "demoStringify (JDobj k n kvs) =
     ''{'' @ joinWith '','' (map (\<lambda>kv. quoted (fst kv) @ '':'' @ demoStringify (snd kv)) kvs) @ ''}''"
| "demoStringify (JRef key) = quoted key"

fun demoString :: "jsval \<Rightarrow> string" where
  "demoString (JStr str) = str"
| "demoString (JArr xs) = joinWith '','' (map demoStringify xs)"
| "demoString (JObj kvs) = ''[object Object]''"
| "demoString (JDobj k n kvs) = ''[object Object]''"
| "demoString v = demoStringify v"

fun demoFields :: "jsval \<Rightarrow> (string \<times> jsval) list" where
  "demoFields (JObj kvs) = kvs"
| "demoFields (JDobj k n kvs) = kvs"
| "demoFields v = []"

definition demoUnique :: "string \<Rightarrow> string list" where
  "demoUnique cls = (if cls = ''Job'' then [''uuid'']
                     else if cls = ''Ship'' then [''isid'']
                     else if cls = ''Container'' then [''icid'']
                     else [])"

definition demoUpdatable :: "string \<Rightarrow> string list" where
  "demoUpdatable cls = (if cls = ''Job'' then [''name'', ''providerUuid'']
                        else if cls = ''Ship'' then [''name'', ''fuelQuantity'']
                        else if cls = ''Container'' then [''onShipUuid'', ''insuredCargoUuids'', ''lock'']
                        else [])"

definition demoMetadataKeys :: "string list" where
  "demoMetadataKeys = [''id'', ''uuid'', ''createdAt'', ''updatedAt'', ''effectiveAt'']"

definition demoSlug :: "jsval \<Rightarrow> string" where
  "demoSlug d =
     (let keys = (if isDomainEntity d then demoUnique (constructorName d) else map fst (demoFields d));
          identity = JObj (filter (\<lambda>kv. fst kv \<in> set keys) (demoFields d))
      in constructorName d @ ''.'' @ stripUnsafe (demoStringify identity) @ ''.'' @ demoDigest (demoStringify identity))"

definition toLower :: "char \<Rightarrow> char" where
  "toLower ch = (let n = (of_char ch :: nat) in if 65 \<le> n \<and> n \<le> 90 then char_of (n + 32) else ch)"

fun startsWith :: "string \<Rightarrow> string \<Rightarrow> bool" where
  "startsWith [] str = True"
| "startsWith (p # ps) [] = False"
| "startsWith (p # ps) (x # xs) = (p = x \<and> startsWith ps xs)"

fun containsString :: "string \<Rightarrow> string \<Rightarrow> bool" where
  "containsString p [] = (p = [])"
| "containsString p (x # xs) = (startsWith p (x # xs) \<or> containsString p xs)"

definition demoCollab :: collab where
  "demoCollab =
     \<lparr>jsString = demoString,
      jsonStringify = demoStringify,
      sha256hex = demoDigest,
      getUniqueIdentifierSlug = demoSlug,
      serialize = demoStringify,
      getUpdatableProperties = (\<lambda>d. filter (\<lambda>key. js_in key d) (demoUpdatable (constructorName d))),
      omitMetadataValues = (\<lambda>d. filter (\<lambda>key. key \<notin> set demoMetadataKeys) (map fst (demoFields d))),
      isPropertyNameAReferenceIntuitively =
        (\<lambda>propertyName domainObjectName.
           containsString (map toLower domainObjectName) (map toLower propertyName)),
      getCacheReferenceKeyForDomainObject = (\<lambda>d. ''.cache.ref.'' @ demoSlug d)\<rparr>"

definition emptySys :: "'w \<Rightarrow> 'w sys" where
  "emptySys w = \<lparr>store = (\<lambda>key. JUndefined), trace = [], world = w\<rparr>"


section \<open>Traces\<close>

text \<open>
  \<open>cacheSteps s s'\<close>: from \<open>s\<close> to \<open>s'\<close> only cache calls happened: the trace grew by
  events that are not logic invocations, and the world is the same.
\<close>

definition cacheSteps :: "'w sys \<Rightarrow> 'w sys \<Rightarrow> bool" where
  "cacheSteps s s' = ((\<exists>t. trace s' = trace s @ t \<and> (\<forall>e \<in> set t. \<forall>i. e \<noteq> EvLogic i)) \<and> world s' = world s)"

definition countQuery :: "string logic" where
  "countQuery input w = (Inr (JNum 0), w)"

definition countOptions :: "string queryOptions" where
  "countOptions = \<lparr>qcache = storeCache, qdependsOn = DependsOnArray [],
                    qserializeKey = Some (\<lambda>input. ''countJobs''), qvalid = None\<rparr>"


text \<open>The uuid extractor \<open>({ input }) => input[0][name]\<close> of the tests and README.\<close>

definition inputField :: "string \<Rightarrow> execution \<Rightarrow> uuids" where
  "inputField name ex =
     OneUuid (demoString (js_prop (case fst ex of [] \<Rightarrow> JUndefined | x # xs \<Rightarrow> x) name))"


text \<open>Entities of the tests: a ship whose fuel gauge moves, a container that changes ship.\<close>

definition shipWithFuel :: "int \<Rightarrow> jsval" where
  "shipWithFuel fuel = JDobj DomainEntity ''Ship''
     [(''uuid'', JStr ''__ship.uuid__''), (''isid'', JStr ''__ship.isid__''),
      (''name'', JStr ''boaty mcboatface''), (''fuelQuantity'', JNum fuel)]"

definition containerOnShip :: "string \<Rightarrow> jsval" where
  "containerOnShip shipUuid = JDobj DomainEntity ''Container''
     [(''uuid'', JStr ''__container.uuid__''), (''icid'', JStr ''__container.icid__''),
      (''onShipUuid'', JStr shipUuid)]"

definition containerWithoutUuid :: jsval where
  "containerWithoutUuid = JDobj DomainEntity ''Container''
     [(''icid'', JStr ''__container.icid__''), (''onShipUuid'', JStr ''__ship.uuid__'')]"

definition sysWith :: "string \<Rightarrow> jsval \<Rightarrow> unit sys" where
  "sysWith key v = \<lparr>store = (\<lambda>k. JUndefined)(key := v), trace = [], world = ()\<rparr>"


section \<open>Registry records\<close>






section \<open>The README scenario\<close>

text \<open>
  A job store holding the name of one job; \<open>getJobByUuid\<close> reads it, \<open>setJobName\<close> writes
  it. Both return the job as a \<open>Job\<close> entity.
\<close>

definition jobNamed :: "string \<Rightarrow> jsval" where
  "jobNamed name = JDobj DomainEntity ''Job'' [(''uuid'', JStr ''__job.uuid__''), (''name'', JStr name)]"

definition firstArg :: "jsval list \<Rightarrow> jsval" where
  "firstArg input = (case input of [] \<Rightarrow> JUndefined | x # xs \<Rightarrow> x)"

definition getJobByUuid :: "string logic" where
  "getJobByUuid input db = (Inr (jobNamed db), db)"

definition setJobName :: "string logic" where
  "setJobName input db =
     (let name = demoString (js_prop (firstArg input) ''name'') in (Inr (jobNamed name), name))"

definition getJobOptions :: "string queryOptions" where
  "getJobOptions = \<lparr>qcache = storeCache,
                     qdependsOn = DependsOnArray [Identity ''Job'' (inputField ''uuid'')],
                     qserializeKey = None, qvalid = None\<rparr>"

definition jobInput :: "jsval list" where
  "jobInput = [JObj [(''uuid'', JStr ''__job.uuid__'')]]"

definition renameInput :: "jsval list" where
  "renameInput = [JObj [(''jobUuid'', JStr ''__job.uuid__''), (''name'', JStr ''Hot Tub Removal'')]]"

definition jobQueryKey :: string where
  "jobQueryKey = queryKeyOf demoCollab getJobOptions jobInput"

definition jobReferenceKey :: string where
  "jobReferenceKey = getCacheReferenceKeyForDomainObject demoCollab (jobNamed ''Junk Removal'')"

definition jobIdentityPointer :: string where
  "jobIdentityPointer = ''.query.dep.Job.uuid.__jobuuid__.225f5f6a6f622e757569645f5f22''"

definition jobNamePointer :: string where
  "jobNamePointer = ''.query.dep.Job.uuid.__job.uuid__.name''"

definition jobOldNamePointer :: string where
  "jobOldNamePointer = ''.query.dep.Job.name.JunkRemoval.224a756e6b2052656d6f76616c22''"

definition jobNewNamePointer :: string where
  "jobNewNamePointer = ''.query.dep.Job.name.HotTubRemoval.22486f74205475622052656d6f76616c22''"

definition afterFirstGet :: "(error + jsval) \<times> string sys" where
  "afterFirstGet = withQueryCaching demoCollab getJobByUuid getJobOptions jobInput (emptySys ''Junk Removal'')"

definition afterRename :: "(error + jsval) \<times> string sys" where
  "afterRename = withMutationEffects demoCollab setJobName storeCache renameInput (snd afterFirstGet)"

definition afterSecondGet :: "(error + jsval) \<times> string sys" where
  "afterSecondGet = withQueryCaching demoCollab getJobByUuid getJobOptions jobInput (snd afterRename)"


section \<open>Kinds of events\<close>

text \<open>
  What the scan and the invalidations of a mutation do to the cache: reads, and writes
  of \<open>undefined\<close>. A snapshot write stores a domain object, never \<open>undefined\<close>.
\<close>

fun isInvalidationEvent :: "event \<Rightarrow> bool" where
  "isInvalidationEvent (EvGet key) = True"
| "isInvalidationEvent (EvSet key v) = (v = JUndefined)"
| "isInvalidationEvent (EvLogic input) = False"


fun isDomainObject :: "jsval \<Rightarrow> bool" where
  "isDomainObject (JDobj k n kvs) = True"
| "isDomainObject v = False"

definition onlyEvents :: "(event \<Rightarrow> bool) \<Rightarrow> 'w sys \<Rightarrow> 'w sys \<Rightarrow> bool" where
  "onlyEvents P s s' = (\<exists>t. trace s' = trace s @ t \<and> list_all P t)"


section \<open>Pointer registry: registration and invalidation\<close>

lemma valid_truthy: "isValidPointerState v \<Longrightarrow> truthy v"
  by (cases v) auto

lemma isValid_pointerState: "isValidPointerState (pointerState qs)"
  by (simp add: pointerState_def)

lemma queriesOf_pointerState: "queriesOf (pointerState qs) = map JStr qs"
  by (simp add: pointerState_def queriesOf_def)

lemma truthy_pointerState: "truthy (pointerState qs)"
  by (simp add: pointerState_def)

lemma promise_all_store_set:
  "promise_all (\<lambda>q s'. (Inr (), store_set (f q) JUndefined s')) qs s =
     (Inr (map (\<lambda>_. ()) qs),
      s\<lparr>store := (\<lambda>k. if k \<in> f ` set qs then JUndefined else store s k),
        trace := trace s @ map (\<lambda>q. EvSet (f q) JUndefined) qs\<rparr>)"
proof (induction qs arbitrary: s)
  case Nil
  show ?case by simp
next
  case (Cons q qs)
  show ?case
    apply (simp add: Cons.IH)
    apply (simp add: store_set_def fun_eq_iff)
    done
qed

text \<open>
  C3. Invalidating a pointer whose record holds the query keys \<open>qs\<close> reads the record and
  then writes \<open>undefined\<close> to exactly the keys of \<open>qs\<close>, in order, and to nothing else; it
  returns \<open>qs\<close>; every other key of the store, the record of the pointer included (a
  pointer is not one of its own query keys), keeps its value. With no record at the
  pointer the call only reads: no write, and the empty list.
\<close>

theorem invalidate_complete_and_frame:
  "(store s pointer = pointerState qs \<longrightarrow>
      (case invalidateQueriesByDependencyPointer c storeCache pointer s of (r, s') \<Rightarrow>
         r = Inr qs
       \<and> trace s' = trace s @ EvGet pointer # map (\<lambda>q. EvSet q JUndefined) qs
       \<and> (\<forall>k. store s' k = (if k \<in> set qs then JUndefined else store s k))
       \<and> (pointer \<notin> set qs \<longrightarrow> store s' pointer = pointerState qs)
       \<and> world s' = world s))
 \<and> (store s pointer = JUndefined \<longrightarrow>
      invalidateQueriesByDependencyPointer c storeCache pointer s =
        (Inr [], s\<lparr>trace := trace s @ [EvGet pointer]\<rparr>))"
proof (intro conjI impI)
  assume rec: "store s pointer = pointerState qs"
  have m: "map (asString c) (map JStr qs) = qs" by (induction qs) auto
  have i: "asString c ` JStr ` set qs = set qs" by (auto simp: image_iff)
  show "case invalidateQueriesByDependencyPointer c storeCache pointer s of (r, s') \<Rightarrow>
         r = Inr qs
       \<and> trace s' = trace s @ EvGet pointer # map (\<lambda>q. EvSet q JUndefined) qs
       \<and> (\<forall>k. store s' k = (if k \<in> set qs then JUndefined else store s k))
       \<and> (pointer \<notin> set qs \<longrightarrow> store s' pointer = pointerState qs)
       \<and> world s' = world s"
    using rec
    by (simp add: invalidateQueriesByDependencyPointer_def storeCache_def store_get_def
        promise_all_store_set m i comp_def isValid_pointerState queriesOf_pointerState
        truthy_pointerState)
next
  assume "store s pointer = JUndefined"
  then show "invalidateQueriesByDependencyPointer c storeCache pointer s =
        (Inr [], s\<lparr>trace := trace s @ [EvGet pointer]\<rparr>)"
    by (simp add: invalidateQueriesByDependencyPointer_def storeCache_def store_get_def)
qed

theorem invalidate_complete_and_frame_witness:
  "(let s = (emptySys ())\<lparr>store := (\<lambda>key. JUndefined)(''__pointer__'' :=
               pointerState [''__query.1__'', ''__query.2__'', ''__query.3__''])\<rparr>
    in store s ''__pointer__'' = pointerState [''__query.1__'', ''__query.2__'', ''__query.3__'']
     \<and> ''__pointer__'' \<notin> set [''__query.1__'', ''__query.2__'', ''__query.3__'']
     \<and> fst (invalidateQueriesByDependencyPointer demoCollab storeCache ''__pointer__'' s)
         = Inr [''__query.1__'', ''__query.2__'', ''__query.3__'']
     \<and> trace (snd (invalidateQueriesByDependencyPointer demoCollab storeCache ''__pointer__'' s))
         = [EvGet ''__pointer__'', EvSet ''__query.1__'' JUndefined,
            EvSet ''__query.2__'' JUndefined, EvSet ''__query.3__'' JUndefined]
     \<and> store (snd (invalidateQueriesByDependencyPointer demoCollab storeCache ''__pointer__'' s)) ''__pointer__''
         = pointerState [''__query.1__'', ''__query.2__'', ''__query.3__''])
 \<and> store (emptySys ()) ''__pointer__'' = JUndefined
 \<and> invalidateQueriesByDependencyPointer demoCollab storeCache ''__pointer__'' (emptySys ())
     = (Inr [], (emptySys ())\<lparr>trace := [EvGet ''__pointer__'']\<rparr>)"
  using invalidate_complete_and_frame
          [of "(emptySys ())\<lparr>store := (\<lambda>key. JUndefined)(''__pointer__'' :=
               pointerState [''__query.1__'', ''__query.2__'', ''__query.3__''])\<rparr>"
              "''__pointer__''" "[''__query.1__'', ''__query.2__'', ''__query.3__'']" demoCollab]
        invalidate_complete_and_frame [of "emptySys ()" "''__pointer__''" "[]" demoCollab]
  by (simp add: emptySys_def split: prod.splits)

text \<open>
  C7. Starting from a pointer whose record is absent, or is a valid record holding the
  query key at most once, two calls in a row with the same pointer and query key both
  succeed and leave a valid record with exactly one occurrence of the query key; the
  second call only reads the record (it appends one \<open>get\<close> to the trace and leaves the
  store as it was).
\<close>

theorem addQueryKey_idempotent:
  assumes ok: "\<not> truthy (store s pointer) \<or>
       (isValidPointerState (store s pointer) \<and>
        count_list (queriesOf (store s pointer)) (JStr queryKey) \<le> 1)"
    and r1: "addQueryKeyToDependencyPointer storeCache pointer queryKey s = (r1, s1)"
    and r2: "addQueryKeyToDependencyPointer storeCache pointer queryKey s1 = (r2, s2)"
  shows "r1 = Inr () \<and> r2 = Inr ()
       \<and> isValidPointerState (store s2 pointer)
       \<and> count_list (queriesOf (store s2 pointer)) (JStr queryKey) = 1
       \<and> store s2 = store s1
       \<and> trace s2 = trace s1 @ [EvGet pointer]"
proof -
  let ?v = "store s pointer"
  have g: "store_get pointer s = (?v, s\<lparr>trace := trace s @ [EvGet pointer]\<rparr>)"
    by (simp add: store_get_def)
  from ok show ?thesis
  proof
    assume f: "\<not> truthy ?v"
    then have nv: "\<not> isValidPointerState ?v" using valid_truthy by blast
    from r1 f nv have s1: "r1 = Inr ()"
      "s1 = store_set pointer (JObj [(''queries'', JArr [JStr queryKey])]) (s\<lparr>trace := trace s @ [EvGet pointer]\<rparr>)"
      by (auto simp: addQueryKeyToDependencyPointer_def storeCache_def g)
    from r2 s1 show ?thesis
      by (auto simp: addQueryKeyToDependencyPointer_def storeCache_def store_get_def store_set_def queriesOf_def)
  next
    assume v: "isValidPointerState ?v \<and> count_list (queriesOf ?v) (JStr queryKey) \<le> 1"
    show ?thesis
    proof (cases "JStr queryKey \<in> set (queriesOf ?v)")
      case True
      with v r1 have s1: "r1 = Inr ()" "s1 = s\<lparr>trace := trace s @ [EvGet pointer]\<rparr>"
        by (auto simp: addQueryKeyToDependencyPointer_def storeCache_def g)
      from True have "count_list (queriesOf ?v) (JStr queryKey) \<noteq> 0"
        by (simp add: count_list_0_iff)
      with v have c1: "count_list (queriesOf ?v) (JStr queryKey) = 1" by linarith
      from r2 s1 v True c1 show ?thesis
        by (auto simp: addQueryKeyToDependencyPointer_def storeCache_def store_get_def)
    next
      case False
      with v r1 have s1: "r1 = Inr ()"
        "s1 = store_set pointer (JObj [(''queries'', JArr (queriesOf ?v @ [JStr queryKey]))]) (s\<lparr>trace := trace s @ [EvGet pointer]\<rparr>)"
        by (auto simp: addQueryKeyToDependencyPointer_def storeCache_def g)
      from False have "count_list (queriesOf ?v) (JStr queryKey) = 0"
        by (simp add: count_list_0_iff)
      with r2 s1 show ?thesis
        by (auto simp: addQueryKeyToDependencyPointer_def storeCache_def store_get_def store_set_def queriesOf_def)
    qed
  qed
qed

theorem addQueryKey_idempotent_witness:
  "\<not> truthy (store (emptySys ()) ''.query.ref.__pointer.5.__'')
 \<and> fst (addQueryKeyToDependencyPointer storeCache ''.query.ref.__pointer.5.__'' ''query.1''
          (snd (addQueryKeyToDependencyPointer storeCache ''.query.ref.__pointer.5.__'' ''query.1''
                 (emptySys ())))) = Inr ()
 \<and> store (snd (addQueryKeyToDependencyPointer storeCache ''.query.ref.__pointer.5.__'' ''query.1''
          (snd (addQueryKeyToDependencyPointer storeCache ''.query.ref.__pointer.5.__'' ''query.1''
                 (emptySys ()))))) ''.query.ref.__pointer.5.__'' = pointerState [''query.1'']
 \<and> trace (snd (addQueryKeyToDependencyPointer storeCache ''.query.ref.__pointer.5.__'' ''query.1''
          (snd (addQueryKeyToDependencyPointer storeCache ''.query.ref.__pointer.5.__'' ''query.1''
                 (emptySys ())))))
     = [EvGet ''.query.ref.__pointer.5.__'',
        EvSet ''.query.ref.__pointer.5.__'' (pointerState [''query.1'']),
        EvGet ''.query.ref.__pointer.5.__'']"
proof -
  let ?p = "''.query.ref.__pointer.5.__''"
  let ?a1 = "addQueryKeyToDependencyPointer storeCache ?p ''query.1'' (emptySys ())"
  let ?a2 = "addQueryKeyToDependencyPointer storeCache ?p ''query.1'' (snd ?a1)"
  have h: "\<not> truthy (store (emptySys ()) ?p)" by (simp add: emptySys_def)
  have e1: "snd ?a1 = (emptySys ())\<lparr>store := (\<lambda>key. JUndefined)(?p := pointerState [''query.1'']),
              trace := [EvGet ?p, EvSet ?p (pointerState [''query.1''])]\<rparr>"
    by (simp add: addQueryKeyToDependencyPointer_def storeCache_def store_get_def store_set_def
        emptySys_def pointerState_def)
  from addQueryKey_idempotent [of "emptySys ()" ?p "''query.1''" "fst ?a1" "snd ?a1" "fst ?a2" "snd ?a2"] h
  have "fst ?a2 = Inr () \<and> store (snd ?a2) = store (snd ?a1) \<and> trace (snd ?a2) = trace (snd ?a1) @ [EvGet ?p]"
    by simp
  with h e1 show ?thesis by simp
qed

section \<open>Cache calls only extend the trace\<close>

lemma cacheSteps_refl: "cacheSteps s s"
  by (simp add: cacheSteps_def)

lemma cacheSteps_trans: "cacheSteps s s1 \<Longrightarrow> cacheSteps s1 s2 \<Longrightarrow> cacheSteps s s2"
  unfolding cacheSteps_def
  by (elim conjE exE) (rule conjI, rule_tac x = "t @ ta" in exI, auto)

lemma storeCache_sel: "cache_get storeCache = store_get" "cache_set storeCache = store_set"
  by (simp_all add: storeCache_def)

lemma store_get_steps: "cacheSteps s (snd (store_get key s))"
  by (simp add: cacheSteps_def store_get_def)

lemma store_set_steps: "cacheSteps s (store_set key v s)"
  by (simp add: cacheSteps_def store_set_def)

lemma getAll_steps: "cacheSteps s (snd (getAll storeCache keys s))"
proof (induction keys arbitrary: s)
  case Nil
  show ?case by (simp add: cacheSteps_refl)
next
  case (Cons key keys)
  have a: "cacheSteps s (snd (store_get key s))" by (rule store_get_steps)
  have b: "cacheSteps (snd (store_get key s)) (snd (getAll storeCache keys (snd (store_get key s))))"
    by (rule Cons.IH)
  from cacheSteps_trans [OF a b] show ?case
    by (simp add: storeCache_sel split_beta)
qed

lemma setAll_steps: "cacheSteps s (setAll storeCache kvs s)"
proof (induction kvs arbitrary: s)
  case Nil
  show ?case by (simp add: cacheSteps_refl)
next
  case (Cons kv kvs)
  have a: "cacheSteps s (store_set (fst kv) (snd kv) s)" by (rule store_set_steps)
  from cacheSteps_trans [OF a Cons.IH] show ?case
    by (simp add: storeCache_sel)
qed

lemma nget_steps: "cacheSteps s (snd (cache_get (withNormalization c storeCache) key s))"
proof -
  have a: "cacheSteps s (snd (store_get key s))" by (rule store_get_steps)
  have b: "cacheSteps (snd (store_get key s))
     (snd (getAll storeCache (dedupe (referencedKeys (fst (store_get key s)))) (snd (store_get key s))))"
    by (rule getAll_steps)
  from cacheSteps_trans [OF a b] show ?thesis
    by (simp add: withNormalization_def storeCache_sel split_beta)
qed

lemma nset_steps: "cacheSteps s (cache_set (withNormalization c storeCache) key v s)"
proof -
  have a: "cacheSteps s (setAll storeCache (extractReferences c v) s)" by (rule setAll_steps)
  have b: "cacheSteps (setAll storeCache (extractReferences c v) s)
     (store_set key (normalizeValue c v) (setAll storeCache (extractReferences c v) s))"
    by (rule store_set_steps)
  from cacheSteps_trans [OF a b] show ?thesis
    by (simp add: withNormalization_def normalizeDomainObjectReferences_def storeCache_sel)
qed

lemma addQueryKey_steps:
  "cacheSteps s (snd (addQueryKeyToDependencyPointer (withNormalization c storeCache) pointer key s))"
proof -
  let ?g = "cache_get (withNormalization c storeCache) pointer s"
  have a: "cacheSteps s (snd ?g)" by (rule nget_steps)
  have b: "\<And>v. cacheSteps (snd ?g) (cache_set (withNormalization c storeCache) pointer v (snd ?g))"
    by (rule nset_steps)
  show ?thesis
    using a cacheSteps_trans [OF a b]
    by (simp add: addQueryKeyToDependencyPointer_def split_beta)
qed

lemma promise_all_steps:
  assumes "\<And>x s. cacheSteps s (snd (f x s))"
  shows "cacheSteps s (snd (promise_all f xs s))"
proof (induction xs arbitrary: s)
  case Nil
  show ?case by (simp add: cacheSteps_refl)
next
  case (Cons x xs)
  have a: "cacheSteps s (snd (f x s))" by (rule assms)
  have b: "cacheSteps (snd (f x s)) (snd (promise_all f xs (snd (f x s))))" by (rule Cons.IH)
  from cacheSteps_trans [OF a b] show ?case
    by (simp add: split_beta)
qed

lemma falsy_no_refs: "\<not> truthy v \<Longrightarrow> referencedKeys v = []"
  by (cases v) auto

lemma falsy_subst: "\<not> truthy v \<Longrightarrow> substituteReferences r v = v"
  by (cases v) auto

lemma nget_falsy:
  "\<not> truthy (store s key) \<Longrightarrow>
   cache_get (withNormalization c storeCache) key s = (store s key, s\<lparr>trace := trace s @ [EvGet key]\<rparr>)"
  by (simp add: withNormalization_def storeCache_sel store_get_def falsy_no_refs falsy_subst dedupe_def)


section \<open>Query orchestrator: what counts as a hit\<close>

text \<open>
  C10. When the value stored at the query's cache key is falsy (the \<open>undefined\<close> written
  by an invalidation, or a falsy output cached earlier, such as \<open>0\<close>), the call reads the
  key and then invokes the underlying logic: the trace continues with the read of the
  key followed by the logic invocation, and the world is the one the logic left. The
  cached falsy value is never the end of the call.
\<close>

theorem falsy_cached_value_is_miss:
  assumes c: "qcache options = storeCache"
    and f: "\<not> truthy (store s (queryKeyOf c options input))"
  shows "\<exists>t. trace (snd (withQueryCaching c logic options input s)) =
               trace s @ [EvGet (queryKeyOf c options input), EvLogic input] @ t
             \<and> (\<forall>e \<in> set t. \<forall>i. e \<noteq> EvLogic i)
             \<and> world (snd (withQueryCaching c logic options input s)) = snd (logic input (world s))"
proof -
  let ?key = "queryKeyOf c options input"
  let ?cache = "withNormalization c storeCache"
  let ?s1 = "s\<lparr>trace := trace s @ [EvGet ?key]\<rparr>"
  let ?s2 = "snd (runLogic logic input ?s1)"
  have qc: "queryCache c options = ?cache"
    by (simp add: queryCache_def withSerialization_def c)
  have s2: "trace ?s2 = trace s @ [EvGet ?key, EvLogic input]" "world ?s2 = snd (logic input (world s))"
    by (simp_all add: runLogic_def split_beta)
  have reg: "\<And>ps. cacheSteps ?s2 (snd (promise_all (\<lambda>pointer. addQueryKeyToDependencyPointer ?cache pointer ?key) ps ?s2))"
    by (rule promise_all_steps) (rule addQueryKey_steps)
  have fin: "\<And>s3 out. cacheSteps s3 (snd (cache_get ?cache ?key (cache_set ?cache ?key out s3)))"
    using cacheSteps_trans [OF nset_steps nget_steps] by blast
  have "cacheSteps ?s2 (snd (withQueryCaching c logic options input s))"
    using f reg cacheSteps_trans [OF reg fin]
    by (simp add: withQueryCaching_def Let_def qc nget_falsy cacheSteps_refl split_beta
        split: sum.splits option.splits)
  then show ?thesis
    using s2 by (auto simp: cacheSteps_def)
qed


theorem falsy_cached_value_is_miss_witness:
  "qcache countOptions = storeCache
 \<and> \<not> truthy (store ((emptySys ''db'')\<lparr>store := (\<lambda>key. JUndefined)(''countJobs'' := JNum 0)\<rparr>)
               (queryKeyOf demoCollab countOptions [JStr ''x'']))
 \<and> take 2 (trace (snd (withQueryCaching demoCollab countQuery countOptions [JStr ''x'']
            ((emptySys ''db'')\<lparr>store := (\<lambda>key. JUndefined)(''countJobs'' := JNum 0)\<rparr>))))
     = [EvGet ''countJobs'', EvLogic [JStr ''x'']]"
proof -
  let ?s = "(emptySys ''db'')\<lparr>store := (\<lambda>key. JUndefined)(''countJobs'' := JNum 0)\<rparr>"
  have a: "qcache countOptions = storeCache" by (simp add: countOptions_def)
  have k: "queryKeyOf demoCollab countOptions [JStr ''x''] = ''countJobs''"
    by (simp add: queryKeyOf_def countOptions_def)
  have b: "\<not> truthy (store ?s (queryKeyOf demoCollab countOptions [JStr ''x'']))"
    by (simp add: k)
  have t: "trace ?s = []" by (simp add: emptySys_def)
  from falsy_cached_value_is_miss [OF a b, of countQuery]
  obtain t' where "trace (snd (withQueryCaching demoCollab countQuery countOptions [JStr ''x''] ?s))
      = trace ?s @ [EvGet ''countJobs'', EvLogic [JStr ''x'']] @ t'"
    unfolding k by blast
  then have "take 2 (trace (snd (withQueryCaching demoCollab countQuery countOptions [JStr ''x''] ?s)))
      = [EvGet ''countJobs'', EvLogic [JStr ''x'']]"
    by (simp add: t)
  with a b show ?thesis by blast
qed

section \<open>Dependency resolver\<close>

lemma mapE_total: "(\<And>x. x \<in> set xs \<Longrightarrow> f x = Inr (g x)) \<Longrightarrow> mapE f xs = Inr (map g xs)"
  by (induction xs) auto

lemma mapE_Inr_iff: "mapE f xs = Inr ys \<longleftrightarrow> list_all2 (\<lambda>x y. f x = Inr y) xs ys"
proof (induction xs arbitrary: ys)
  case Nil
  show ?case by auto
next
  case (Cons x xs)
  show ?case
    by (cases ys) (auto simp: Cons.IH [symmetric] split: sum.splits)
qed

lemma list_all2_memD: "list_all2 P xs ys \<Longrightarrow> x \<in> set xs \<Longrightarrow> \<exists>y \<in> set ys. P x y"
  by (induction rule: list_all2_induct) auto

lemma define_PropertyOf:
  "defineDependencyPointerKey c dobj property (PropertyOf uuid) =
     Inr (''.query.dep.'' @ dobj @ ''.uuid.'' @ uuid @ ''.'' @ property)"
  by (simp add: defineDependencyPointerKey_def)

lemma define_PropertyEquals_string:
  "defineDependencyPointerKey c dobj property (PropertyEquals (JStr v)) =
     Inr (''.query.dep.'' @ dobj @ ''.'' @ property @ ''.''
           @ humanPart (jsonStringify c (JStr v)) @ ''.'' @ sha256hex c (jsonStringify c (JStr v)))"
  by (simp add: defineDependencyPointerKey_def serializePropertyValue_def)

lemma define_string_total:
  "\<exists>p. defineDependencyPointerKey c dobj property (if b then PropertyOf uuid else PropertyEquals (JStr uuid)) = Inr p"
  by (simp add: define_PropertyOf define_PropertyEquals_string)

lemma mapE_succeeds:
  "(\<And>x. \<exists>y. f x = Inr y) \<Longrightarrow> \<exists>ys. mapE f xs = Inr ys"
proof (induction xs)
  case Nil
  show ?case by simp
next
  case (Cons x xs)
  from Cons.prems obtain y where "f x = Inr y" by blast
  moreover from Cons obtain ys where "mapE f xs = Inr ys" by blast
  ultimately show ?case by simp
qed


text \<open>
  C9. A relationship declaration that passes the naming check resolves, and the resolver
  emits one pointer per id of the \<open>from.uuid\<close> extractor, in order: when \<open>via.dobj\<close> equals
  \<open>from.dobj\<close> the identity-specifier pointer (\<open>propertyOf\<close>) on \<open>via.dobj\<close>, \<open>via.prop\<close> and
  the id, otherwise the value-specifier pointer (\<open>propertyEquals\<close>) on \<open>via.dobj\<close>,
  \<open>via.prop\<close> and the id as value. The same pointers are among the result whenever the
  declaration is one of several that all resolve.
\<close>

theorem relationship_side_resolution:
  assumes named: "isPropertyNameAReferenceIntuitively c viaProp (if viaDobj = fromDobj then toDobj else fromDobj)"
  shows "(\<exists>ps. getDependencyPointersDependedOnByQuery c
                  (DependsOnArray [Relationship fromDobj fromUuid toDobj viaDobj viaProp]) ex = Inr ps
              \<and> list_all2 (\<lambda>uuid p. defineDependencyPointerKey c viaDobj viaProp
                                      (if viaDobj = fromDobj then PropertyOf uuid
                                       else PropertyEquals (JStr uuid)) = Inr p)
                          (uuidList (fromUuid ex)) ps)
       \<and> (\<forall>ds ps uuid.
             getDependencyPointersDependedOnByQuery c (DependsOnArray ds) ex = Inr ps
           \<and> Relationship fromDobj fromUuid toDobj viaDobj viaProp \<in> set ds
           \<and> uuid \<in> set (uuidList (fromUuid ex))
           \<longrightarrow> (\<exists>p \<in> set ps. defineDependencyPointerKey c viaDobj viaProp
                                  (if viaDobj = fromDobj then PropertyOf uuid
                                   else PropertyEquals (JStr uuid)) = Inr p))"
proof -
  let ?r = "Relationship fromDobj fromUuid toDobj viaDobj viaProp"
  let ?f = "\<lambda>uuid. defineDependencyPointerKey c viaDobj viaProp
                     (if viaDobj = fromDobj then PropertyOf uuid else PropertyEquals (JStr uuid))"
  from mapE_succeeds [of ?f "uuidList (fromUuid ex)"] define_string_total
  obtain out where out: "mapE ?f (uuidList (fromUuid ex)) = Inr out" by blast
  then have all: "list_all2 (\<lambda>uuid p. ?f uuid = Inr p) (uuidList (fromUuid ex)) out"
    by (simp add: mapE_Inr_iff)
  have one: "pointersOfDependency c ex ?r = Inr out"
    using named out by (simp add: Let_def)
  have p1: "getDependencyPointersDependedOnByQuery c (DependsOnArray [?r]) ex = Inr out"
    by (simp add: getDependencyPointersDependedOnByQuery_def one del: pointersOfDependency.simps)
  have p3: "\<exists>p \<in> set ps. ?f uuid = Inr p"
    if res: "getDependencyPointersDependedOnByQuery c (DependsOnArray ds) ex = Inr ps"
      and mem: "?r \<in> set ds" and u: "uuid \<in> set (uuidList (fromUuid ex))" for ds ps uuid
  proof -
    from res obtain pss where m: "mapE (pointersOfDependency c ex) ds = Inr pss" and ps: "ps = concat pss"
      by (auto simp: getDependencyPointersDependedOnByQuery_def split: sum.splits)
    from m have "list_all2 (\<lambda>x y. pointersOfDependency c ex x = Inr y) ds pss"
      by (simp add: mapE_Inr_iff)
    from list_all2_memD [OF this mem]
    obtain y where "y \<in> set pss" "pointersOfDependency c ex ?r = Inr y"
      by blast
    with one have o: "out \<in> set pss" by simp
    from list_all2_memD [OF all u] obtain p where "p \<in> set out" "?f uuid = Inr p" by blast
    with o ps show ?thesis by auto
  qed
  from p1 all p3 show ?thesis by blast
qed


theorem relationship_side_resolution_witness:
  "isPropertyNameAReferenceIntuitively demoCollab ''onShipUuid''
     (if ''Container'' = ''Container'' then ''Ship'' else ''Container'')
 \<and> getDependencyPointersDependedOnByQuery demoCollab
      (DependsOnArray [Relationship ''Container'' (inputField ''containerUuid'') ''Ship'' ''Container'' ''onShipUuid''])
      ([JObj [(''containerUuid'', JStr ''__uuid__'')]], JNull)
     = Inr [''.query.dep.Container.uuid.__uuid__.onShipUuid'']"
proof -
  have h: "isPropertyNameAReferenceIntuitively demoCollab ''onShipUuid''
     (if ''Container'' = ''Container'' then ''Ship'' else ''Container'')"
    by (simp add: demoCollab_def toLower_def)
  have u: "uuidList (inputField ''containerUuid'' ([JObj [(''containerUuid'', JStr ''__uuid__'')]], JNull))
            = [''__uuid__'']"
    by (simp add: inputField_def)
  from relationship_side_resolution [OF h, of "inputField ''containerUuid''"
         "([JObj [(''containerUuid'', JStr ''__uuid__'')]], JNull)"]
  obtain ps where r: "getDependencyPointersDependedOnByQuery demoCollab
      (DependsOnArray [Relationship ''Container'' (inputField ''containerUuid'') ''Ship'' ''Container'' ''onShipUuid''])
      ([JObj [(''containerUuid'', JStr ''__uuid__'')]], JNull) = Inr ps"
    and l: "list_all2 (\<lambda>uuid p. defineDependencyPointerKey demoCollab ''Container'' ''onShipUuid''
                         (if ''Container'' = ''Container'' then PropertyOf uuid
                          else PropertyEquals (JStr uuid)) = Inr p) [''__uuid__''] ps"
    unfolding u by blast
  from l have "ps = [''.query.dep.Container.uuid.__uuid__.onShipUuid'']"
    by (auto simp: list_all2_Cons1 defineDependencyPointerKey_def)
  with h r show ?thesis by simp
qed

section \<open>Evaluation on concrete inputs\<close>

lemmas demo_simps =
  demoCollab_def demoUpdatable_def demoUnique_def demoMetadataKeys_def demoSlug_def
  demoDigest_def hexDigit_def quoted_def showInt_def showNat.simps toLower_def
  humanPart_def stripUnsafe_def replaceColons_def isWordChar_def
  serializePropertyValue_def defineDependencyPointerKey_def pointersOfProperty_def
  propertiesImpacted_def dedupe_def
  storeCache_def store_get_def store_set_def sysWith_def emptySys_def
  shipWithFuel_def containerOnShip_def containerWithoutUuid_def

section \<open>Mutation impact scanner\<close>








text \<open>
  C8, as the code has it. An entity without a \<open>uuid\<close> makes the scan raise
  \<open>UndefinableDomainEntityPropertyDependencyInvalidationError\<close> as soon as one of its
  properties is impacted (every non-metadata property when no snapshot is cached, the
  changed updatable properties otherwise); the scan has then only read the snapshot.
\<close>

theorem missing_uuid_raises_when_impacted:
  assumes ent: "isDomainEntity d"
    and nouuid: "\<not> js_in ''uuid'' d"
    and imp: "propertiesImpacted c (store s rk) d \<noteq> []"
  shows "getDependencyPointersInvalidatedByMutationOutputReference c storeCache rk d s =
           (Inl (UndefinableDomainEntityPropertyDependencyInvalidationError (constructorName d)),
            s\<lparr>trace := trace s @ [EvGet rk]\<rparr>)"
proof -
  from imp obtain p ps where "propertiesImpacted c (store s rk) d = p # ps"
    by (cases "propertiesImpacted c (store s rk) d") auto
  with ent nouuid show ?thesis
    by (simp add: getDependencyPointersInvalidatedByMutationOutputReference_def storeCache_def
        store_get_def pointersOfProperty_def)
qed


theorem missing_uuid_raises_when_impacted_witness:
  "isDomainEntity containerWithoutUuid
 \<and> \<not> js_in ''uuid'' containerWithoutUuid
 \<and> propertiesImpacted demoCollab (store (emptySys ()) ''ref.container'') containerWithoutUuid \<noteq> []
 \<and> getDependencyPointersInvalidatedByMutationOutputReference demoCollab storeCache
      ''ref.container'' containerWithoutUuid (emptySys ())
     = (Inl (UndefinableDomainEntityPropertyDependencyInvalidationError ''Container''),
        (emptySys ())\<lparr>trace := [EvGet ''ref.container'']\<rparr>)"
proof -
  have h1: "isDomainEntity containerWithoutUuid" by (simp add: containerWithoutUuid_def)
  have h2: "\<not> js_in ''uuid'' containerWithoutUuid" by (simp add: containerWithoutUuid_def)
  have h3: "propertiesImpacted demoCollab (store (emptySys ()) ''ref.container'') containerWithoutUuid \<noteq> []"
    by (simp add: propertiesImpacted_def emptySys_def containerWithoutUuid_def demoCollab_def
        demoMetadataKeys_def)
  from missing_uuid_raises_when_impacted [OF h1 h2 h3] h1 h2 h3 show ?thesis
    by (simp add: containerWithoutUuid_def emptySys_def)
qed

text \<open>
  The claim as written fails when nothing is impacted: the same entity, cached and
  unchanged, is passed over without an error.
\<close>

theorem missing_uuid_skipped_counterexample:
  "isDomainEntity containerWithoutUuid
 \<and> \<not> js_in ''uuid'' containerWithoutUuid
 \<and> fst (getDependencyPointersInvalidatedByMutationOutputReference demoCollab storeCache
          ''ref.container'' containerWithoutUuid (sysWith ''ref.container'' containerWithoutUuid))
     = Inr []"
  by (simp add: getDependencyPointersInvalidatedByMutationOutputReference_def demo_simps)

section \<open>Registration through the normalizing cache\<close>

















lemma setAll_trace:
  "trace (setAll storeCache kvs s) = trace s @ map (\<lambda>kv. EvSet (fst kv) (snd kv)) kvs"
  by (induction kvs arbitrary: s) (simp_all add: storeCache_sel store_set_def)




lemma setAll_world: "world (setAll storeCache kvs s) = world s"
  by (induction kvs arbitrary: s) (simp_all add: storeCache_sel store_set_def)



section \<open>The README scenario, step by step\<close>

lemma jobQueryKey_eq: "queryKeyOf demoCollab getJobOptions jobInput = jobQueryKey"
  by (simp add: jobQueryKey_def)

lemma jobQueryKey_lit:
  "jobQueryKey = [CHR ''['', CHR ''{'', CHR 0x22] @ ''uuid'' @ [CHR 0x22, CHR '':'', CHR 0x22]
                   @ ''__job.uuid__'' @ [CHR 0x22, CHR ''}'', CHR '']'']"
  by (simp add: jobQueryKey_def queryKeyOf_def getJobOptions_def jobInput_def demoCollab_def quoted_def)

lemma jobReferenceKey_eq:
  "getCacheReferenceKeyForDomainObject demoCollab (jobNamed name) = jobReferenceKey"
  by (simp add: jobReferenceKey_def jobNamed_def demoCollab_def demoSlug_def demoUnique_def)

lemma jobReferenceKey_lit:
  "jobReferenceKey = ''.cache.ref.Job.uuid__jobuuid__.7b2275756964223a225f5f6a6f622e757569645f5f227d''"
  by (simp add: jobReferenceKey_def jobNamed_def demo_simps)

lemma jobDeps:
  "getDependencyPointersDependedOnByQuery demoCollab (qdependsOn getJobOptions) (jobInput, out)
     = Inr [jobIdentityPointer]"
  by (simp add: getDependencyPointersDependedOnByQuery_def getJobOptions_def jobInput_def
      inputField_def jobIdentityPointer_def demo_simps)

lemma job_keys_distinct:
  "distinct [jobQueryKey, jobReferenceKey, jobIdentityPointer, jobNamePointer,
             jobOldNamePointer, jobNewNamePointer]"
  by (simp add: jobQueryKey_lit jobReferenceKey_lit jobIdentityPointer_def jobNamePointer_def
      jobOldNamePointer_def jobNewNamePointer_def)

lemma job_normalize:
  "normalizeValue demoCollab (jobNamed name) = JRef jobReferenceKey"
  "occurrences demoCollab (jobNamed name) = [(jobReferenceKey, jobNamed name)]"
  using jobReferenceKey_eq [of name] by (simp_all add: jobNamed_def)

lemma job_scan:
  "getDependencyPointersInvalidatedByMutationOutputReference demoCollab storeCache jobReferenceKey
      (jobNamed ''Hot Tub Removal'') s
     = (if store s jobReferenceKey = jobNamed ''Junk Removal''
        then (Inr [jobNamePointer, jobOldNamePointer, jobNewNamePointer], s\<lparr>trace := trace s @ [EvGet jobReferenceKey]\<rparr>)
        else getDependencyPointersInvalidatedByMutationOutputReference demoCollab storeCache jobReferenceKey
      (jobNamed ''Hot Tub Removal'') s)"
  by (simp add: getDependencyPointersInvalidatedByMutationOutputReference_def jobNamed_def
      jobNamePointer_def jobOldNamePointer_def jobNewNamePointer_def demo_simps)


lemma job_options: "qcache getJobOptions = storeCache" "qvalid getJobOptions = None"
  by (simp_all add: getJobOptions_def)

lemmas job_neq = job_keys_distinct [simplified] job_keys_distinct [THEN distinct_rev [THEN iffD2], simplified]

lemmas orchestrator_simps =
  withQueryCaching_def withMutationEffects_def Let_def split_beta queryCache_def
  withSerialization_def withNormalization_def normalizeDomainObjectReferences_def
  extractReferences_def getDependencyPointersInvalidatedByMutation_def
  addQueryKeyToDependencyPointer_def invalidateQueriesByDependencyPointer_def runLogic_def
  queriesOf_def dedupe_def storeCache_sel store_get_def store_set_def pointerState_def

lemma first_get:
  "afterFirstGet =
     (Inr (jobNamed ''Junk Removal''),
      \<lparr>store = (\<lambda>k. JUndefined)
          (jobIdentityPointer := pointerState [jobQueryKey],
           jobReferenceKey := jobNamed ''Junk Removal'',
           jobQueryKey := JRef jobReferenceKey),
       trace = [EvGet jobQueryKey, EvLogic jobInput,
                EvGet jobIdentityPointer, EvSet jobIdentityPointer (pointerState [jobQueryKey]),
                EvSet jobReferenceKey (jobNamed ''Junk Removal''),
                EvSet jobQueryKey (JRef jobReferenceKey),
                EvGet jobQueryKey, EvGet jobReferenceKey],
       world = ''Junk Removal''\<rparr>)"
  by (simp add: afterFirstGet_def orchestrator_simps emptySys_def jobQueryKey_eq jobDeps job_options
      getJobByUuid_def job_normalize job_neq)


lemma rename_refs:
  "firstArg renameInput = JObj [(''jobUuid'', JStr ''__job.uuid__''), (''name'', JStr ''Hot Tub Removal'')]"
  by (simp add: firstArg_def renameInput_def)

lemma jobNamed_neq: "jobNamed ''Hot Tub Removal'' \<noteq> jobNamed ''Junk Removal''"
  by (simp add: jobNamed_def)

lemma rename_step:
  "afterRename =
     (Inr (jobNamed ''Hot Tub Removal''),
      \<lparr>store = (\<lambda>k. JUndefined)
          (jobIdentityPointer := pointerState [jobQueryKey],
           jobReferenceKey := jobNamed ''Hot Tub Removal'',
           jobQueryKey := JRef jobReferenceKey),
       trace = [EvGet jobQueryKey, EvLogic jobInput,
                EvGet jobIdentityPointer, EvSet jobIdentityPointer (pointerState [jobQueryKey]),
                EvSet jobReferenceKey (jobNamed ''Junk Removal''),
                EvSet jobQueryKey (JRef jobReferenceKey),
                EvGet jobQueryKey, EvGet jobReferenceKey,
                EvLogic renameInput,
                EvGet jobReferenceKey,
                EvGet jobNamePointer, EvGet jobOldNamePointer, EvGet jobNewNamePointer,
                EvSet jobReferenceKey (jobNamed ''Hot Tub Removal'')],
       world = ''Hot Tub Removal''\<rparr>)"
  apply (simp add: afterRename_def first_get)
  apply (simp add: withMutationEffects_def withSerialization_def runLogic_def setJobName_def rename_refs
      getDependencyPointersInvalidatedByMutation_def normalizeDomainObjectReferences_def
      extractReferences_def job_normalize Let_def)
  apply (subst job_scan)
  apply (simp add: job_neq dedupe_def invalidateQueriesByDependencyPointer_def storeCache_sel
      store_get_def store_set_def normalizeDomainObjectReferences_def
      extractReferences_def job_normalize fun_eq_iff)
  done

lemma jobNamed_truthy: "truthy (jobNamed name)"
  by (simp add: jobNamed_def)

lemma second_get:
  "afterSecondGet =
     (Inr (jobNamed ''Hot Tub Removal''),
      (snd afterRename)\<lparr>trace := trace (snd afterRename) @ [EvGet jobQueryKey, EvGet jobReferenceKey]\<rparr>)"
  apply (simp add: afterSecondGet_def rename_step)
  apply (simp add: orchestrator_simps jobQueryKey_eq job_options job_neq jobNamed_truthy)
  done


text \<open>
  C1, as the code has it. The first \<open>getJobByUuid\<close> call is a miss: it runs the logic,
  registers the query key under the pointer of its identity dependency (the value
  pointer on property \<open>uuid\<close>), stores the job under its reference key and a reference
  under the query key. \<open>setJobName\<close> finds \<open>name\<close> changed and evaluates the three
  pointers of that property only; the pointer the query registered is not among them, so
  the query's entry stays; the mutation then rewrites the job's snapshot under its
  reference key. The second \<open>getJobByUuid\<close> call reads the query key and the reference
  key and returns the job with the new name: a cache hit, the logic is not invoked.
\<close>

theorem readme_scenario_updates_through_reference:
  "fst afterFirstGet = Inr (jobNamed ''Junk Removal'')
 \<and> trace (snd afterFirstGet) =
       [EvGet jobQueryKey, EvLogic jobInput,
        EvGet jobIdentityPointer, EvSet jobIdentityPointer (pointerState [jobQueryKey]),
        EvSet jobReferenceKey (jobNamed ''Junk Removal''),
        EvSet jobQueryKey (JRef jobReferenceKey),
        EvGet jobQueryKey, EvGet jobReferenceKey]
 \<and> getDependencyPointersDependedOnByQuery demoCollab (qdependsOn getJobOptions)
       (jobInput, jobNamed ''Junk Removal'') = Inr [jobIdentityPointer]
 \<and> store (snd afterFirstGet) jobIdentityPointer = pointerState [jobQueryKey]
 \<and> fst (getDependencyPointersInvalidatedByMutation demoCollab storeCache
            (jobNamed ''Hot Tub Removal'') (snd afterFirstGet))
       = Inr [jobNamePointer, jobOldNamePointer, jobNewNamePointer]
 \<and> jobIdentityPointer \<notin> set [jobNamePointer, jobOldNamePointer, jobNewNamePointer]
 \<and> fst afterRename = Inr (jobNamed ''Hot Tub Removal'')
 \<and> trace (snd afterRename) = trace (snd afterFirstGet) @
       [EvLogic renameInput, EvGet jobReferenceKey,
        EvGet jobNamePointer, EvGet jobOldNamePointer, EvGet jobNewNamePointer,
        EvSet jobReferenceKey (jobNamed ''Hot Tub Removal'')]
 \<and> store (snd afterRename) jobQueryKey = JRef jobReferenceKey
 \<and> store (snd afterRename) jobReferenceKey = jobNamed ''Hot Tub Removal''
 \<and> fst afterSecondGet = Inr (jobNamed ''Hot Tub Removal'')
 \<and> trace (snd afterSecondGet) = trace (snd afterRename) @ [EvGet jobQueryKey, EvGet jobReferenceKey]"
proof -
  have scan: "fst (getDependencyPointersInvalidatedByMutation demoCollab storeCache
            (jobNamed ''Hot Tub Removal'') (snd afterFirstGet))
       = Inr [jobNamePointer, jobOldNamePointer, jobNewNamePointer]"
    apply (simp add: first_get getDependencyPointersInvalidatedByMutation_def
        normalizeDomainObjectReferences_def extractReferences_def job_normalize)
    apply (subst job_scan)
    apply (simp add: job_neq dedupe_def)
    done
  show ?thesis
    apply (intro conjI)
               apply (simp add: first_get)
              apply (simp add: first_get)
             apply (rule jobDeps)
            apply (simp add: first_get job_neq)
           apply (rule scan)
          apply (simp add: job_neq)
         apply (simp add: rename_step)
        apply (simp add: rename_step first_get)
       apply (simp add: rename_step job_neq)
      apply (simp add: rename_step job_neq)
     apply (simp add: second_get)
    apply (simp add: second_get)
    done
qed

text \<open>
  The claim as written expects the second \<open>getJobByUuid\<close> call to be a miss. It is not:
  after the registration and after the mutation, the call adds two cache reads to the
  trace and no logic invocation.
\<close>

theorem readme_scenario_second_get_is_hit_counterexample:
  "store (snd afterFirstGet) jobIdentityPointer = pointerState [jobQueryKey]
 \<and> fst afterRename = Inr (jobNamed ''Hot Tub Removal'')
 \<and> world (snd afterRename) = ''Hot Tub Removal''
 \<and> trace (snd afterSecondGet) = trace (snd afterRename) @ [EvGet jobQueryKey, EvGet jobReferenceKey]
 \<and> EvLogic jobInput \<notin> set [EvGet jobQueryKey, EvGet jobReferenceKey]"
  apply (intro conjI)
      apply (simp add: first_get job_neq)
     apply (simp add: rename_step)
    apply (simp add: rename_step)
   apply (simp add: second_get)
  apply simp
  done

section \<open>Mutation orchestrator\<close>

lemma onlyEvents_refl: "onlyEvents P s s"
  by (simp add: onlyEvents_def)

lemma onlyEvents_trans: "onlyEvents P s s1 \<Longrightarrow> onlyEvents P s1 s2 \<Longrightarrow> onlyEvents P s s2"
  unfolding onlyEvents_def
  by (elim exE conjE) (rule_tac x = "t @ ta" in exI, simp)

lemma promise_all_onlyEvents:
  assumes "\<And>x s. onlyEvents P s (snd (f x s))"
  shows "onlyEvents P s (snd (promise_all f xs s))"
proof (induction xs arbitrary: s)
  case Nil
  show ?case by (simp add: onlyEvents_refl)
next
  case (Cons x xs)
  have a: "onlyEvents P s (snd (f x s))" by (rule assms)
  have b: "onlyEvents P (snd (f x s)) (snd (promise_all f xs (snd (f x s))))" by (rule Cons.IH)
  from onlyEvents_trans [OF a b] show ?case
    by (simp add: split_beta)
qed

lemma scan_reference_events:
  "onlyEvents isInvalidationEvent s
     (snd (getDependencyPointersInvalidatedByMutationOutputReference c storeCache rk d s))"
  by (simp add: getDependencyPointersInvalidatedByMutationOutputReference_def storeCache_sel
      store_get_def onlyEvents_def split: sum.splits)

lemma scan_events:
  "onlyEvents isInvalidationEvent s (snd (getDependencyPointersInvalidatedByMutation c storeCache output s))"
proof -
  have "onlyEvents isInvalidationEvent s
     (snd (promise_all (\<lambda>reference. getDependencyPointersInvalidatedByMutationOutputReference c storeCache
              (fst reference) (snd reference)) (extractReferences c output) s))"
    by (rule promise_all_onlyEvents) (rule scan_reference_events)
  then show ?thesis
    by (simp add: getDependencyPointersInvalidatedByMutation_def normalizeDomainObjectReferences_def
        split_beta split: sum.splits)
qed

lemma invalidate_events:
  "onlyEvents isInvalidationEvent s (snd (invalidateQueriesByDependencyPointer c storeCache p s))"
  by (simp add: invalidateQueriesByDependencyPointer_def storeCache_sel store_get_def
      promise_all_store_set onlyEvents_def list_all_iff)

lemma invalidate_all_events:
  "onlyEvents isInvalidationEvent s
     (snd (promise_all (invalidateQueriesByDependencyPointer c storeCache) ps s))"
  by (rule promise_all_onlyEvents) (rule invalidate_events)

lemma assign_snd: "set (assign k v kvs) \<subseteq> insert (k, v) (set kvs)"
  by (induction kvs) (auto split: if_splits)

lemma fold_assign_subset:
  "set (fold (\<lambda>kv acc. assign (fst kv) (snd kv) acc) occ acc) \<subseteq> set occ \<union> set acc"
proof (induction occ arbitrary: acc)
  case Nil
  show ?case by simp
next
  case (Cons kv occ)
  have "set (fold (\<lambda>kv acc. assign (fst kv) (snd kv) acc) occ (assign (fst kv) (snd kv) acc))
          \<subseteq> set occ \<union> set (assign (fst kv) (snd kv) acc)"
    by (rule Cons.IH)
  also have "\<dots> \<subseteq> set occ \<union> insert kv (set acc)"
    using assign_snd [of "fst kv" "snd kv" acc] by auto
  finally show ?case by auto
qed

lemma extractReferences_subset: "set (extractReferences c v) \<subseteq> set (occurrences c v)"
  using fold_assign_subset [of "occurrences c v" "[]"] by (simp add: extractReferences_def)

lemma occurrences_are_objects: "kd \<in> set (occurrences c v) \<Longrightarrow> isDomainObject (snd kd)"
proof (induction v arbitrary: kd)
  case (JArr xs)
  then show ?case by (cases kd) auto
next
  case (JObj kvs)
  then show ?case by (cases kd) (auto simp: snds.simps)
qed auto


lemma list_all_persisted:
  "list_all (\<lambda>kv. isDomainObject (snd kv)) (extractReferences c output)"
  using extractReferences_subset [of c "output"] occurrences_are_objects [of _ c "output"]
  by (auto simp: list_all_iff)


text \<open>
  C6. In every execution of \<open>withMutationEffects\<close> the trace is: the logic invocation,
  then only reads and writes of \<open>undefined\<close> (the scan and the invalidations), and, when
  the call returns, the writes of the output's snapshots under their reference keys, as
  the last events. The snapshot writes store domain objects (never \<open>undefined\<close>), and they
  start from the state in which the invalidations of all impacted pointers have
  returned. When the call fails, no snapshot is written.
\<close>

theorem persist_after_invalidate:
  "(\<exists>t. list_all isInvalidationEvent t
      \<and> trace (snd (withMutationEffects c logic storeCache input s)) =
          trace s @ EvLogic input # t @
            (case fst (withMutationEffects c logic storeCache input s) of
               Inr output \<Rightarrow> map (\<lambda>kv. EvSet (fst kv) (snd kv)) (extractReferences c output)
             | Inl e \<Rightarrow> []))
 \<and> (\<forall>output. fst (withMutationEffects c logic storeCache input s) = Inr output \<longrightarrow>
        list_all (\<lambda>kv. isDomainObject (snd kv)) (extractReferences c output)
      \<and> (\<exists>pointers s2 invalidated s3.
            getDependencyPointersInvalidatedByMutation c storeCache output (snd (runLogic logic input s))
              = (Inr pointers, s2)
          \<and> promise_all (invalidateQueriesByDependencyPointer c storeCache) pointers s2
              = (Inr invalidated, s3)
          \<and> snd (withMutationEffects c logic storeCache input s)
              = setAll storeCache (extractReferences c output) s3))"
proof -
  let ?run = "withMutationEffects c logic storeCache input s"
  obtain r s1 where l: "runLogic logic input s = (r, s1)" by (cases "runLogic logic input s")
  then have t1: "trace s1 = trace s @ [EvLogic input]"
    by (auto simp: runLogic_def split_beta)
  show ?thesis
  proof (cases r)
    case (Inl e)
    with l have "?run = (Inl e, s1)"
      by (simp add: withMutationEffects_def withSerialization_def)
    with t1 show ?thesis by simp
  next
    case (Inr outp)
    obtain rp s2 where sc: "getDependencyPointersInvalidatedByMutation c storeCache outp s1 = (rp, s2)"
      by (cases "getDependencyPointersInvalidatedByMutation c storeCache outp s1")
    from scan_events [of s1 c outp] sc
    obtain ta where t2: "trace s2 = trace s1 @ ta" "list_all isInvalidationEvent ta"
      by (auto simp: onlyEvents_def)
    show ?thesis
    proof (cases rp)
      case (Inl e)
      with l Inr sc have "?run = (Inl e, s2)"
        by (simp add: withMutationEffects_def withSerialization_def)
      with t1 t2 show ?thesis by simp
    next
      case ps: (Inr pointers)
      obtain rq s3 where inv: "promise_all (invalidateQueriesByDependencyPointer c storeCache) pointers s2 = (rq, s3)"
        by (cases "promise_all (invalidateQueriesByDependencyPointer c storeCache) pointers s2")
      from invalidate_all_events [of s2 c pointers] inv
      obtain tb where t3: "trace s3 = trace s2 @ tb" "list_all isInvalidationEvent tb"
        by (auto simp: onlyEvents_def)
      show ?thesis
      proof (cases rq)
        case (Inl e)
        with l Inr sc ps inv have "?run = (Inl e, s3)"
          by (simp add: withMutationEffects_def withSerialization_def)
        with t1 t2 t3 show ?thesis by simp
      next
        case qs: (Inr invalidated)
        with l Inr sc ps inv
        have res: "?run = (Inr outp, setAll storeCache (extractReferences c outp) s3)"
          by (simp add: withMutationEffects_def withSerialization_def
              normalizeDomainObjectReferences_def)
        have tr: "trace (snd ?run) = trace s @ EvLogic input # (ta @ tb)
                    @ map (\<lambda>kv. EvSet (fst kv) (snd kv)) (extractReferences c outp)"
          by (simp add: res setAll_trace t1 t2 t3)
        have first: "\<exists>t. list_all isInvalidationEvent t
            \<and> trace (snd ?run) = trace s @ EvLogic input # t @
               (case fst ?run of
                  Inr outp \<Rightarrow> map (\<lambda>kv. EvSet (fst kv) (snd kv)) (extractReferences c outp)
                | Inl e \<Rightarrow> [])"
          using tr t2 t3 by (intro exI [of _ "ta @ tb"]) (simp add: res)
        have second: "\<exists>pointers s2 invalidated s3.
            getDependencyPointersInvalidatedByMutation c storeCache outp (snd (runLogic logic input s))
              = (Inr pointers, s2)
          \<and> promise_all (invalidateQueriesByDependencyPointer c storeCache) pointers s2
              = (Inr invalidated, s3)
          \<and> snd ?run = setAll storeCache (extractReferences c outp) s3"
          using l sc ps inv qs res by simp
        from first second list_all_persisted [of c outp] show ?thesis
          by (simp add: res)
      qed
    qed
  qed
qed


theorem persist_after_invalidate_witness:
  "fst afterRename = Inr (jobNamed ''Hot Tub Removal'')
 \<and> (\<exists>t. list_all isInvalidationEvent t
        \<and> trace (snd afterRename) =
            trace (snd afterFirstGet) @ EvLogic renameInput # t
              @ [EvSet jobReferenceKey (jobNamed ''Hot Tub Removal'')])"
proof -
  have r: "fst afterRename = Inr (jobNamed ''Hot Tub Removal'')"
    by (simp add: rename_step)
  have x: "extractReferences demoCollab (jobNamed ''Hot Tub Removal'')
             = [(jobReferenceKey, jobNamed ''Hot Tub Removal'')]"
    by (simp add: extractReferences_def job_normalize)
  from persist_after_invalidate [of demoCollab setJobName renameInput "snd afterFirstGet", THEN conjunct1]
  have "\<exists>t. list_all isInvalidationEvent t
        \<and> trace (snd afterRename) =
            trace (snd afterFirstGet) @ EvLogic renameInput # t
              @ [EvSet jobReferenceKey (jobNamed ''Hot Tub Removal'')]"
    unfolding afterRename_def [symmetric] r by (simp add: x)
  with r show ?thesis by (rule conjI)
qed

section \<open>Query orchestrator: the miss path\<close>
































end
